theory Spec2Isabelle
  imports Complex_Main
begin

section \<open>The boids world of \<open>src/boids.js\<close>\<close>

text \<open>
  The simulation is embedded shallowly. A JavaScript number is a double. Its finite
  values are real numbers, and the fields of a boid and of the world hold finite values.

  Where the outcome depends on the rounding of double arithmetic, the arithmetic is
  rounded: in \<open>addBoid\<close>, whose defaults are computed from the draws, and in
  \<open>getNeighbors\<close>, which compares computed squared distances. Every result of an
  operation is rounded to the nearest double, ties to even, and to an infinity beyond
  the largest double. The sign of a zero is not kept: no operation of these two functions
  tells the zeros apart.

  The arithmetic of \<open>update\<close> itself (the influences, \<open>Math.sin\<close>, \<open>Math.cos\<close>,
  \<open>Math.atan2\<close>, the integration and the wrap) is exact arithmetic over the reals:
  \<^term>\<open>sin\<close> and \<^term>\<open>cos\<close> are the real functions, and rounding, \<open>NaN\<close> and the
  infinities are left out there.

  Boids are objects, compared by identity in \<open>getNeighbors\<close> and mutated in place by
  \<open>update\<close>. An object is a reference into a store; the array \<open>this.boids\<close> is the list
  of the references it holds, in order.

  \<open>Math.random()\<close> is the ambient generator. A function \<open>rnd\<close> gives the results of
  its successive calls, and a position \<open>k\<close> counts the calls already made.
\<close>

subsection \<open>Numbers\<close>

text \<open>
  The remainder operator \<open>a % n\<close>: the dividend minus the divisor times the quotient
  truncated towards zero, so the result takes the sign of the dividend.
\<close>

definition js_trunc :: "real \<Rightarrow> int" where
  "js_trunc q = (if 0 \<le> q then \<lfloor>q\<rfloor> else \<lceil>q\<rceil>)"

definition js_rem :: "real \<Rightarrow> real \<Rightarrow> real" where
  "js_rem a n = a - n * of_int (js_trunc (a / n))"

text \<open>\<open>Math.atan2(y, x)\<close>: the angle of the point \<open>(x, y)\<close>, in \<open>(-pi, pi]\<close>.\<close>

definition atan2 :: "real \<Rightarrow> real \<Rightarrow> real" where
  "atan2 v u =
     (if 0 < u then arctan (v / u)
      else if u < 0 then (if 0 \<le> v then arctan (v / u) + pi else arctan (v / u) - pi)
      else if 0 < v then pi / 2
      else if v < 0 then - (pi / 2)
      else 0)"

subsection \<open>Doubles\<close>

text \<open>
  The binary exponent of a nonzero real, not below that of the subnormal doubles, and
  the distance between neighbouring doubles at that exponent (53 bits of significand).
\<close>

definition expo :: "real \<Rightarrow> int" where
  "expo v = max \<lfloor>log 2 \<bar>v\<bar>\<rfloor> (- 1022)"

definition ulp :: "real \<Rightarrow> real" where
  "ulp v = 2 powi (expo v - 52)"

text \<open>Rounding to the nearest integer, a tie to the even one.\<close>

definition roundEven :: "real \<Rightarrow> int" where
  "roundEven q =
     (let f = \<lfloor>q\<rfloor>
      in if q - of_int f < 1 / 2 then f
         else if 1 / 2 < q - of_int f then f + 1
         else if even f then f else f + 1)"

text \<open>The nearest value on the grid of doubles, before any overflow.\<close>

definition nearest :: "real \<Rightarrow> real" where
  "nearest v = (if v = 0 then 0 else of_int (roundEven (v / ulp v)) * ulp v)"

text \<open>\<open>Number.MAX_VALUE\<close>.\<close>

definition maxDouble :: real where
  "maxDouble = (2 ^ 53 - 1) * 2 ^ 971"


text \<open>\<open>Math.PI\<close>: the double nearest to \<open>pi\<close>.\<close>

definition mathPI :: real where
  "mathPI = nearest pi"

text \<open>The values an operation on doubles can have.\<close>

datatype number = Finite real | PlusInfinity | MinusInfinity | NaN

definition round64 :: "real \<Rightarrow> number" where
  "round64 v =
     (if maxDouble < nearest v then PlusInfinity
      else if nearest v < - maxDouble then MinusInfinity
      else Finite (nearest v))"

fun num_sub :: "number \<Rightarrow> number \<Rightarrow> number" where
  "num_sub (Finite a) (Finite b) = round64 (a - b)"
| "num_sub NaN _ = NaN"
| "num_sub _ NaN = NaN"
| "num_sub PlusInfinity PlusInfinity = NaN"
| "num_sub MinusInfinity MinusInfinity = NaN"
| "num_sub PlusInfinity _ = PlusInfinity"
| "num_sub MinusInfinity _ = MinusInfinity"
| "num_sub (Finite a) PlusInfinity = MinusInfinity"
| "num_sub (Finite a) MinusInfinity = PlusInfinity"

fun num_add :: "number \<Rightarrow> number \<Rightarrow> number" where
  "num_add (Finite a) (Finite b) = round64 (a + b)"
| "num_add NaN _ = NaN"
| "num_add _ NaN = NaN"
| "num_add PlusInfinity MinusInfinity = NaN"
| "num_add MinusInfinity PlusInfinity = NaN"
| "num_add PlusInfinity _ = PlusInfinity"
| "num_add MinusInfinity _ = MinusInfinity"
| "num_add (Finite a) PlusInfinity = PlusInfinity"
| "num_add (Finite a) MinusInfinity = MinusInfinity"

text \<open>The sign of a product with an infinity; zero times an infinity is \<open>NaN\<close>.\<close>

definition signedInfinity :: "real \<Rightarrow> number" where
  "signedInfinity s = (if s = 0 then NaN else if 0 < s then PlusInfinity else MinusInfinity)"

fun num_mul :: "number \<Rightarrow> number \<Rightarrow> number" where
  "num_mul (Finite a) (Finite b) = round64 (a * b)"
| "num_mul NaN _ = NaN"
| "num_mul _ NaN = NaN"
| "num_mul PlusInfinity PlusInfinity = PlusInfinity"
| "num_mul PlusInfinity MinusInfinity = MinusInfinity"
| "num_mul MinusInfinity PlusInfinity = MinusInfinity"
| "num_mul MinusInfinity MinusInfinity = PlusInfinity"
| "num_mul PlusInfinity (Finite b) = signedInfinity b"
| "num_mul MinusInfinity (Finite b) = signedInfinity (- b)"
| "num_mul (Finite a) PlusInfinity = signedInfinity a"
| "num_mul (Finite a) MinusInfinity = signedInfinity (- a)"

text \<open>\<open>Math.abs\<close>.\<close>

fun num_abs :: "number \<Rightarrow> number" where
  "num_abs (Finite a) = Finite \<bar>a\<bar>"
| "num_abs PlusInfinity = PlusInfinity"
| "num_abs MinusInfinity = PlusInfinity"
| "num_abs NaN = NaN"

text \<open>The comparison \<open><\<close>: false as soon as one side is \<open>NaN\<close>.\<close>

fun num_less :: "number \<Rightarrow> number \<Rightarrow> bool" where
  "num_less (Finite a) (Finite b) \<longleftrightarrow> a < b"
| "num_less NaN _ \<longleftrightarrow> False"
| "num_less _ NaN \<longleftrightarrow> False"
| "num_less PlusInfinity _ \<longleftrightarrow> False"
| "num_less _ MinusInfinity \<longleftrightarrow> False"
| "num_less MinusInfinity _ \<longleftrightarrow> True"
| "num_less (Finite a) PlusInfinity \<longleftrightarrow> True"

subsection \<open>Data\<close>

record boid =
  x :: real
  y :: real
  angle :: real
  speed :: real
  newAngle :: real
  newSpeed :: real

type_synonym ref = nat

record world =
  width :: real
  height :: real
  boids :: "ref list"
  heap :: "ref \<Rightarrow> boid"

text \<open>The argument of \<open>addBoid\<close>: a field that is \<open>None\<close> was omitted.\<close>

record boidOptions =
  opt_x :: "real option"
  opt_y :: "real option"
  opt_angle :: "real option"
  opt_speed :: "real option"

definition noOptions :: boidOptions where
  "noOptions = \<lparr>opt_x = None, opt_y = None, opt_angle = None, opt_speed = None\<rparr>"

subsection \<open>Construction\<close>

text \<open>An object literal is a new object: a reference that the array does not hold.\<close>

definition newRef :: "ref list \<Rightarrow> ref" where
  "newRef rs = fold max rs 0 + 1"

text \<open>
  \<open>addBoid\<close>: the defaults are evaluated from left to right, each only when its field
  was omitted, and each draws once from \<open>Math.random()\<close>. Every product and sum of a
  default is rounded to a double; with a draw in \<open>[0, 1)\<close> and finite dimensions none
  overflows. The result is the world and the position of the generator afterwards.
\<close>

definition addBoid :: "(nat \<Rightarrow> real) \<Rightarrow> nat \<Rightarrow> boidOptions \<Rightarrow> world \<Rightarrow> world \<times> nat" where
  "addBoid rnd k opts w =
     (let (vx, k1) = (case opt_x opts of Some v \<Rightarrow> (v, k)
                        | None \<Rightarrow> (nearest (rnd k * width w), Suc k));
          (vy, k2) = (case opt_y opts of Some v \<Rightarrow> (v, k1)
                        | None \<Rightarrow> (nearest (rnd k1 * height w), Suc k1));
          (va, k3) = (case opt_angle opts of Some v \<Rightarrow> (v, k2)
                        | None \<Rightarrow> (nearest (nearest (rnd k2 * 2) * mathPI), Suc k2));
          (vs, k4) = (case opt_speed opts of Some v \<Rightarrow> (v, k3)
                        | None \<Rightarrow> (nearest (rnd k3 + 0.5), Suc k3));
          r = newRef (boids w)
      in (w\<lparr>boids := boids w @ [r],
            heap := (heap w)(r := \<lparr>x = vx, y = vy, angle = va, speed = vs,
                                    newAngle = 0, newSpeed = 0\<rparr>)\<rparr>, k4))"

text \<open>The loop of the constructor: \<open>addBoid()\<close> with no argument, \<open>n\<close> times.\<close>

fun addBoids :: "(nat \<Rightarrow> real) \<Rightarrow> nat \<Rightarrow> nat \<Rightarrow> world \<Rightarrow> world \<times> nat" where
  "addBoids rnd k 0 w = (w, k)"
| "addBoids rnd k (Suc n) w = (case addBoid rnd k noOptions w of (w', k') \<Rightarrow> addBoids rnd k' n w')"

definition World :: "(nat \<Rightarrow> real) \<Rightarrow> nat \<Rightarrow> real \<Rightarrow> real \<Rightarrow> nat \<Rightarrow> world \<times> nat" where
  "World rnd k wd ht initialBoidCount =
     addBoids rnd k initialBoidCount
       \<lparr>width = wd, height = ht, boids = [], heap = (\<lambda>_. undefined)\<rparr>"

subsection \<open>Neighbours\<close>

definition getNeighbors :: "world \<Rightarrow> ref \<Rightarrow> real \<Rightarrow> ref list" where
  "getNeighbors w target radius =
     filter (\<lambda>b.
       if b = target then False
       else (let dx = num_abs (num_sub (Finite (x (heap w b))) (Finite (x (heap w target))));
                 dy = num_abs (num_sub (Finite (y (heap w b))) (Finite (y (heap w target))))
             in num_less (num_add (num_mul dx dx) (num_mul dy dy))
                  (num_mul (Finite radius) (Finite radius)))) (boids w)"

subsection \<open>Averages\<close>

definition averageAngle :: "boid list \<Rightarrow> real" where
  "averageAngle bs =
     (case fold (\<lambda>b (sx, sy). (sx + cos (angle b), sy + sin (angle b))) bs (0, 0) of
        (sx, sy) \<Rightarrow> atan2 sy sx)"

definition averagePosition :: "boid list \<Rightarrow> real \<times> real" where
  "averagePosition bs =
     (case fold (\<lambda>b (totalX, totalY). (totalX + x b, totalY + y b)) bs (0, 0) of
        (totalX, totalY) \<Rightarrow> (totalX / real (length bs), totalY / real (length bs)))"

definition averageSpeed :: "boid list \<Rightarrow> real" where
  "averageSpeed bs = fold (\<lambda>b totalSpeed. totalSpeed + speed b) bs 0 / real (length bs)"

subsection \<open>Phase 1 of \<open>update\<close>: the influences\<close>

definition distanceSquared :: "boid \<Rightarrow> boid \<Rightarrow> real" where
  "distanceSquared b n =
     (let dx = x b - x n; dy = y b - y n in dx * dx + dy * dy)"

text \<open>The divisor of the separation rule.\<close>

definition separationDivisor :: "boid \<Rightarrow> boid \<Rightarrow> real" where
  "separationDivisor b n = distanceSquared b n / 100 + 1"

text \<open>What one neighbour adds to \<open>xInfluence\<close> and \<open>yInfluence\<close> in the separation loop.\<close>

definition separationTerm :: "boid \<Rightarrow> boid \<Rightarrow> real \<times> real" where
  "separationTerm b n =
     (let dx = x b - x n; dy = y b - y n
      in (dx / separationDivisor b n * 0.01, dy / separationDivisor b n * 0.01))"

definition separation :: "boid \<Rightarrow> boid list \<Rightarrow> real \<times> real \<Rightarrow> real \<times> real" where
  "separation b neighbors acc =
     fold (\<lambda>n (xInfluence, yInfluence).
             (xInfluence + fst (separationTerm b n), yInfluence + snd (separationTerm b n)))
          neighbors acc"

text \<open>
  The influences of the neighbours on the boid \<open>b\<close>, before the noise:
  \<open>(xInfluence, yInfluence, speedInfluence)\<close>.
\<close>

definition neighborInfluence :: "boid \<Rightarrow> boid list \<Rightarrow> real \<times> real \<times> real" where
  "neighborInfluence b neighbors =
     (if length neighbors > 0 then
        (let aAngle = averageAngle neighbors;
             xInfluence = 0 + cos aAngle * 0.01;
             yInfluence = 0 + sin aAngle * 0.01;
             aPosition = averagePosition neighbors;
             xInfluence = xInfluence + (fst aPosition - x b) * 0.001;
             yInfluence = yInfluence + (snd aPosition - y b) * 0.001;
             (xInfluence, yInfluence) = separation b neighbors (xInfluence, yInfluence);
             speedInfluence = (averageSpeed neighbors - speed b) * 0.1
         in (xInfluence, yInfluence, speedInfluence))
      else (0, 0, 0))"

text \<open>The three noise terms of one boid, from the draws at \<open>k\<close>, \<open>k + 1\<close>, \<open>k + 2\<close>.\<close>

definition noise :: "(nat \<Rightarrow> real) \<Rightarrow> nat \<Rightarrow> real" where
  "noise rnd k = (rnd k * 2 - 1) * 0.01"

text \<open>The body of the first loop: the boid \<open>b\<close> with its staged fields written.\<close>

definition stage :: "(nat \<Rightarrow> real) \<Rightarrow> nat \<Rightarrow> world \<Rightarrow> ref \<Rightarrow> boid" where
  "stage rnd k w b =
     (let neighbors = map (heap w) (getNeighbors w b 100);
          me = heap w b;
          (xInfluence, yInfluence, speedInfluence) = neighborInfluence me neighbors;
          xInfluence = xInfluence + noise rnd k;
          yInfluence = yInfluence + noise rnd (k + 1);
          speedInfluence = speedInfluence + noise rnd (k + 2)
      in me\<lparr>newAngle := atan2 (sin (angle me) + yInfluence) (cos (angle me) + xInfluence),
            newSpeed := min (max (speed me + speedInfluence) 0.5) 2\<rparr>)"

fun phase1 :: "(nat \<Rightarrow> real) \<Rightarrow> nat \<Rightarrow> ref list \<Rightarrow> world \<Rightarrow> world" where
  "phase1 rnd k [] w = w"
| "phase1 rnd k (b # rest) w =
     phase1 rnd (k + 3) rest (w\<lparr>heap := (heap w)(b := stage rnd k w b)\<rparr>)"

subsection \<open>Phase 2 of \<open>update\<close>: commit, move, wrap\<close>

definition commit :: "boid \<Rightarrow> boid" where
  "commit b = (let b = b\<lparr>angle := newAngle b\<rparr> in b\<lparr>speed := newSpeed b\<rparr>)"

definition integrate :: "boid \<Rightarrow> boid" where
  "integrate b =
     (let b = b\<lparr>x := x b + cos (angle b) * speed b\<rparr>
      in b\<lparr>y := y b + sin (angle b) * speed b\<rparr>)"

definition wrap :: "real \<Rightarrow> real \<Rightarrow> boid \<Rightarrow> boid" where
  "wrap wd ht b =
     (let b = (if x b \<ge> wd then b\<lparr>x := js_rem (x b) wd\<rparr> else b);
          b = (if x b \<le> 0 then b\<lparr>x := js_rem (x b) wd + wd\<rparr> else b);
          b = (if y b \<ge> ht then b\<lparr>y := js_rem (y b) ht\<rparr> else b);
          b = (if y b \<le> 0 then b\<lparr>y := js_rem (y b) wd + ht\<rparr> else b)
      in b)"

text \<open>The body of the second loop.\<close>

definition move :: "real \<Rightarrow> real \<Rightarrow> boid \<Rightarrow> boid" where
  "move wd ht b = wrap wd ht (integrate (commit b))"

fun phase2 :: "ref list \<Rightarrow> world \<Rightarrow> world" where
  "phase2 [] w = w"
| "phase2 (b # rest) w =
     phase2 rest (w\<lparr>heap := (heap w)(b := move (width w) (height w) (heap w b))\<rparr>)"

definition update :: "(nat \<Rightarrow> real) \<Rightarrow> world \<Rightarrow> world" where
  "update rnd w = phase2 (boids w) (phase1 rnd 0 (boids w) w)"


subsection \<open>The wrap as the specification writes it\<close>

text \<open>
  The pseudocode of the specification, read with \<open>mod\<close> as the remainder operator of
  the source (\<^const>\<open>js_rem\<close>): the two corrections of an axis run one after the other,
  the second on the result of the first.
\<close>

definition wrapX :: "real \<Rightarrow> real \<Rightarrow> real" where
  "wrapX wd v =
     (let v = (if v \<ge> wd then js_rem v wd else v)
      in if v \<le> 0 then js_rem v wd + wd else v)"

definition wrapY :: "real \<Rightarrow> real \<Rightarrow> real \<Rightarrow> real" where
  "wrapY wd ht v =
     (let v = (if v \<ge> ht then js_rem v ht else v)
      in if v \<le> 0 then js_rem v wd + ht else v)"

definition spec_move :: "real \<Rightarrow> real \<Rightarrow> boid \<Rightarrow> boid" where
  "spec_move wd ht b =
     \<lparr>x = wrapX wd (x b + cos (newAngle b) * newSpeed b),
      y = wrapY wd ht (y b + sin (newAngle b) * newSpeed b),
      angle = newAngle b, speed = newSpeed b,
      newAngle = newAngle b, newSpeed = newSpeed b\<rparr>"

definition spec_phase2 :: "world \<Rightarrow> world" where
  "spec_phase2 w =
     fold (\<lambda>r v. v\<lparr>heap := (heap v)(r := spec_move (width w) (height w) (heap v r))\<rparr>)
       (boids w) w"

subsection \<open>The neighbours as the code computes them\<close>

text \<open>
  The squared distance of two boids in double arithmetic: the differences, their squares
  and the sum each rounded, an infinity where one overflows.
\<close>

definition squaredDistance64 :: "boid \<Rightarrow> boid \<Rightarrow> number" where
  "squaredDistance64 b t =
     (let dx = num_sub (Finite (x b)) (Finite (x t));
          dy = num_sub (Finite (y b)) (Finite (y t))
      in num_add (num_mul dx dx) (num_mul dy dy))"

text \<open>An integer below \<open>2\<^sup>2\<^sup>5\<close> in magnitude: the arithmetic on such values is exact.\<close>

definition smallInteger :: "real \<Rightarrow> bool" where
  "smallInteger v \<longleftrightarrow> v = of_int \<lfloor>v\<rfloor> \<and> \<bar>v\<bar> < 2 ^ 25"

subsection \<open>The tick against a snapshot\<close>





text \<open>The clamp of the specification.\<close>

definition clamp :: "real \<Rightarrow> real \<Rightarrow> real \<Rightarrow> real" where
  "clamp v lo hi = (if v < lo then lo else if hi < v then hi else v)"

subsection \<open>Example worlds\<close>

text \<open>An empty world of 10 by 10.\<close>

definition emptyWorld :: world where
  "emptyWorld = fst (World (\<lambda>_. 1 / 2) 0 10 10 0)"

text \<open>
  The same world after \<open>addBoid({x: 9, y: 0, angle: 0, speed: 1})\<close>: one boid, one
  step from the right edge, on the lower edge, heading along the x axis.
\<close>

definition edgeWorld :: world where
  "edgeWorld = fst (addBoid (\<lambda>_. 1 / 2) 0
       \<lparr>opt_x = Some 9, opt_y = Some 0, opt_angle = Some 0, opt_speed = Some 1\<rparr> emptyWorld)"

text \<open>A boid at rest in the staging fields, heading along the x axis at speed 1.\<close>

definition boidAt :: "real \<Rightarrow> real \<Rightarrow> boid" where
  "boidAt px py = \<lparr>x = px, y = py, angle = 0, speed = 1, newAngle = 0, newSpeed = 0\<rparr>"

text \<open>Two boids, at \<open>(0, 0)\<close> and \<open>(3, 4)\<close>: 5 apart.\<close>

definition pairWorld :: world where
  "pairWorld = fst (addBoid (\<lambda>_. 1 / 2) 0
       \<lparr>opt_x = Some 3, opt_y = Some 4, opt_angle = Some 0, opt_speed = Some 1\<rparr>
       (fst (addBoid (\<lambda>_. 1 / 2) 0
          \<lparr>opt_x = Some 0, opt_y = Some 0, opt_angle = Some 0, opt_speed = Some 1\<rparr>
          emptyWorld)))"

text \<open>A third boid on top of the first.\<close>

definition trioWorld :: world where
  "trioWorld = fst (addBoid (\<lambda>_. 1 / 2) 0
       \<lparr>opt_x = Some 0, opt_y = Some 0, opt_angle = Some 0, opt_speed = Some 1\<rparr> pairWorld)"


text \<open>
  Two boids, at \<open>(0, 0)\<close> and \<open>(1 - 2\<^sup>-\<^sup>5\<^sup>3, 15 / 2\<^sup>3\<^sup>0)\<close>: less than 1 apart, and
  exactly 1 apart once the squared distance is rounded.
\<close>

definition roundingWorld :: world where
  "roundingWorld = fst (addBoid (\<lambda>_. 1 / 2) 0
       \<lparr>opt_x = Some (1 - 1 / 2 ^ 53), opt_y = Some (15 / 2 ^ 30), opt_angle = Some 0,
        opt_speed = Some 1\<rparr>
       (fst (addBoid (\<lambda>_. 1 / 2) 0
          \<lparr>opt_x = Some 0, opt_y = Some 0, opt_angle = Some 0, opt_speed = Some 1\<rparr>
          emptyWorld)))"

text \<open>Two boids \<open>2\<^sup>6\<^sup>0\<^sup>0\<close> apart: the square of their distance is beyond every double.\<close>

definition farWorld :: world where
  "farWorld = fst (addBoid (\<lambda>_. 1 / 2) 0
       \<lparr>opt_x = Some (2 ^ 600), opt_y = Some 0, opt_angle = Some 0, opt_speed = Some 1\<rparr>
       (fst (addBoid (\<lambda>_. 1 / 2) 0
          \<lparr>opt_x = Some 0, opt_y = Some 0, opt_angle = Some 0, opt_speed = Some 1\<rparr>
          emptyWorld)))"



text \<open>Three different draws, none of them \<open>1 / 2\<close>: each gives a noise other than 0.\<close>

definition sampleDraws :: "nat \<Rightarrow> real" where
  "sampleDraws i = (if i = 0 then 0 else if i = 1 then 3 / 4 else 1 / 4)"

section \<open>Properties\<close>

subsection \<open>Rounding to an integer\<close>

lemma roundEven_of_int [simp]: "roundEven (of_int n) = n"
  by (simp add: roundEven_def)






lemma roundEven_above_half:
  "of_int n - 1 / 2 < q \<Longrightarrow> q \<le> of_int n \<Longrightarrow> roundEven q = n"
proof -
  assume a: "of_int n - 1 / 2 < q" "q \<le> of_int n"
  show ?thesis
  proof (cases "q = of_int n")
    case True
    then show ?thesis by simp
  next
    case False
    with a have "\<lfloor>q\<rfloor> = n - 1" by linarith
    then show ?thesis using a by (simp add: roundEven_def)
  qed
qed

subsection \<open>The exponent of a real\<close>

lemma floor_log2_iff:
  assumes "v \<noteq> 0"
  shows "\<lfloor>log 2 \<bar>v\<bar>\<rfloor> = k \<longleftrightarrow> 2 powi k \<le> \<bar>v\<bar> \<and> \<bar>v\<bar> < 2 powi (k + 1)"
proof -
  have p: "(2::real) powr real_of_int j = 2 powi j" for j
    by (rule powr_real_of_int') simp_all
  have "\<lfloor>log 2 \<bar>v\<bar>\<rfloor> = k \<longleftrightarrow> 2 powr real_of_int k \<le> \<bar>v\<bar> \<and> \<bar>v\<bar> < 2 powr (real_of_int k + 1)"
    using assms floor_log_eq_powr_iff[of "\<bar>v\<bar>" 2 k] by simp
  also have "real_of_int k + 1 = real_of_int (k + 1)" by simp
  finally show ?thesis unfolding p .
qed

lemma floor_log2_bounds:
  assumes "v \<noteq> 0"
  shows "2 powi \<lfloor>log 2 \<bar>v\<bar>\<rfloor> \<le> \<bar>v\<bar>" "\<bar>v\<bar> < 2 powi (\<lfloor>log 2 \<bar>v\<bar>\<rfloor> + 1)"
  using floor_log2_iff[OF assms, of "\<lfloor>log 2 \<bar>v\<bar>\<rfloor>"] by simp_all

lemma powi2_mono: "i \<le> j \<Longrightarrow> (2::real) powi i \<le> 2 powi j"
  by (rule power_int_increasing) simp_all

lemma powi2_less_imp: "(2::real) powi i < 2 powi j \<Longrightarrow> i < j"
  using powi2_mono[of j i] by (cases "i < j") simp_all

lemma expo_eqI:
  assumes "2 powi k \<le> \<bar>v\<bar>" and "\<bar>v\<bar> < 2 powi (k + 1)" and "- 1022 \<le> k"
  shows "expo v = k"
proof -
  have "0 < (2::real) powi k" by simp
  with assms(1) have "0 < \<bar>v\<bar>" by linarith
  then have "v \<noteq> 0" by simp
  then have "\<lfloor>log 2 \<bar>v\<bar>\<rfloor> = k" using assms(1,2) by (simp add: floor_log2_iff)
  then show ?thesis using assms(3) by (simp add: expo_def)
qed




lemma expo_lower:
  assumes "2 powi (- 1022) \<le> \<bar>v\<bar>"
  shows "2 powi (expo v) \<le> \<bar>v\<bar>"
proof -
  have "0 < (2::real) powi (- 1022)" by simp
  with assms have "0 < \<bar>v\<bar>" by linarith
  then have v: "v \<noteq> 0" by simp
  have "(2::real) powi (- 1022) < 2 powi (\<lfloor>log 2 \<bar>v\<bar>\<rfloor> + 1)"
    using floor_log2_bounds(2)[OF v] assms by linarith
  then have "- 1022 < \<lfloor>log 2 \<bar>v\<bar>\<rfloor> + 1" by (rule powi2_less_imp)
  then have "expo v = \<lfloor>log 2 \<bar>v\<bar>\<rfloor>" by (simp add: expo_def)
  then show ?thesis using floor_log2_bounds(1)[OF v] by simp
qed



lemma ulp_pos [simp]: "0 < ulp v"
  by (simp add: ulp_def)

lemma ulp_nonneg [simp]: "0 \<le> ulp v"
  by (simp add: ulp_def)

lemma ulp_neq_0 [simp]: "ulp v \<noteq> 0"
  by (simp add: ulp_def)

subsection \<open>Rounding to a double\<close>

lemma nearest_expo:
  assumes "v \<noteq> 0" and "expo v = k"
  shows "nearest v = of_int (roundEven (v / 2 powi (k - 52))) * 2 powi (k - 52)"
  using assms by (simp add: nearest_def ulp_def)

lemma nearest_eval:
  assumes "2 powi k \<le> \<bar>v\<bar>" and "\<bar>v\<bar> < 2 powi (k + 1)" and "- 1022 \<le> k"
  shows "nearest v = of_int (roundEven (v / 2 powi (k - 52))) * 2 powi (k - 52)"
proof -
  have "0 < (2::real) powi k" by simp
  with assms(1) have "0 < \<bar>v\<bar>" by linarith
  then have "v \<noteq> 0" by simp
  then show ?thesis using expo_eqI[OF assms] by (rule nearest_expo)
qed

lemma nearest_grid:
  assumes "v = of_int n * ulp v"
  shows "nearest v = v"
proof (cases "v = 0")
  case True
  then show ?thesis by (simp add: nearest_def)
next
  case False
  from assms have "v / ulp v = of_int n * ulp v / ulp v"
    by (rule arg_cong[where f = "\<lambda>t. t / ulp v"])
  then have q: "v / ulp v = of_int n" by simp
  have "nearest v = of_int n * ulp v" using False by (simp add: nearest_def q)
  then show ?thesis using assms by simp
qed




lemma nearest_of_int:
  assumes "\<bar>n\<bar> < 2 ^ 53"
  shows "nearest (of_int n) = of_int n"
proof (cases "n = 0")
  case True
  then show ?thesis by (simp add: nearest_def)
next
  case False
  define v :: real where "v = of_int n"
  have "1 \<le> \<bar>n\<bar>" using False by simp
  then have "real_of_int 1 \<le> real_of_int \<bar>n\<bar>" by (simp only: of_int_le_iff)
  then have v1: "1 \<le> \<bar>v\<bar>" by (simp add: v_def)
  have "(2::real) powi (- 1022) \<le> 2 powi 0" by (rule powi2_mono) simp
  then have lo: "2 powi (- 1022) \<le> \<bar>v\<bar>" using v1 by simp
  have "real_of_int \<bar>n\<bar> < real_of_int (2 ^ 53)" using assms by (simp only: of_int_less_iff)
  then have "\<bar>v\<bar> < 2 ^ 53" by (simp add: v_def)
  then have "2 powi (expo v) < (2::real) powi 53" using expo_lower[OF lo] by simp
  then have e: "expo v < 53" by (rule powi2_less_imp)
  define m where "m = nat (52 - expo v)"
  have "(2::real) powi (expo v - 52) * 2 powi (int m) = 2 powi (expo v - 52 + int m)"
    by (rule power_int_add[symmetric]) simp
  also have "expo v - 52 + int m = 0" using e by (simp add: m_def)
  finally have u: "ulp v * 2 ^ m = 1" by (simp add: ulp_def)
  have "v = v * (ulp v * 2 ^ m)" by (simp add: u)
  also have "\<dots> = of_int (n * 2 ^ m) * ulp v" by (simp add: v_def)
  finally have "nearest v = v" by (rule nearest_grid)
  then show ?thesis by (simp add: v_def)
qed

lemma maxDouble_ge: "2 ^ 53 \<le> maxDouble"
  by (simp add: maxDouble_def)

lemma round64_of_int:
  assumes "\<bar>n\<bar> < 2 ^ 53"
  shows "round64 (of_int n) = Finite (of_int n)"
proof -
  have "real_of_int \<bar>n\<bar> < real_of_int (2 ^ 53)" using assms by (simp only: of_int_less_iff)
  then have "\<bar>real_of_int n\<bar> < 2 ^ 53" by simp
  then have "\<bar>real_of_int n\<bar> \<le> maxDouble" using maxDouble_ge by linarith
  then show ?thesis by (simp add: round64_def nearest_of_int[OF assms] abs_le_iff)
qed

lemma round64_numeral:
  "(numeral k :: int) < 2 ^ 53 \<Longrightarrow> round64 (numeral k) = Finite (numeral k)"
  "(numeral k :: int) < 2 ^ 53 \<Longrightarrow> round64 (- numeral k) = Finite (- numeral k)"
  "round64 0 = Finite 0"
  "round64 1 = Finite 1"
  using round64_of_int[of "numeral k"] round64_of_int[of "- numeral k"]
    round64_of_int[of 0] round64_of_int[of 1]
  by simp_all

lemma roundEven_numeral [simp]: "roundEven (numeral k) = numeral k"
  using roundEven_of_int[of "numeral k"] by simp


lemma small_round:
  fixes a :: real
  assumes "nearest a = a" "\<bar>a\<bar> \<le> maxDouble"
  shows "round64 a = Finite a"
  using assms by (simp add: round64_def abs_le_iff)

subsection \<open>The draws and the defaults of \<open>addBoid\<close>\<close>

























lemma rw1: "nearest (1 - 1 / 2 ^ 53) = 1 - 1 / 2 ^ 53"
  by (simp add: nearest_eval[of "-1"] roundEven_def)

lemma rw2: "nearest ((1 - 1 / 2 ^ 53) * (1 - 1 / 2 ^ 53)) = 1 - 1 / 2 ^ 52"
  by (simp add: nearest_eval[of "-1"] roundEven_def)

lemma rw3: "nearest (15 / 2 ^ 30) = 15 / 2 ^ 30"
  by (simp add: nearest_eval[of "-27"] roundEven_def)

lemma rw4: "nearest (15 / 2 ^ 30 * (15 / 2 ^ 30)) = 225 / 2 ^ 60"
  by (simp add: nearest_eval[of "-53"] roundEven_def)

lemma rw5: "nearest (1 - 1 / 2 ^ 52 + 225 / 2 ^ 60) = 1"
  by (simp add: nearest_eval[of "-1"] roundEven_def)




subsection \<open>The squared distance in doubles\<close>

lemma num_mul_abs: "num_mul (num_abs a) (num_abs a) = num_mul a a"
  by (cases a) simp_all

lemma getNeighbors_squaredDistance64:
  "getNeighbors w t r =
     filter (\<lambda>b. b \<noteq> t \<and>
        num_less (squaredDistance64 (heap w b) (heap w t)) (num_mul (Finite r) (Finite r)))
       (boids w)"
  unfolding getNeighbors_def squaredDistance64_def Let_def num_mul_abs
  by (rule filter_cong[OF refl]) simp

lemma smallInteger_int:
  assumes "smallInteger v"
  obtains i :: int where "v = of_int i" "\<bar>i\<bar> < 2 ^ 25"
proof -
  from assms have v: "v = of_int \<lfloor>v\<rfloor>" and b: "\<bar>v\<bar> < 2 ^ 25" by (simp_all add: smallInteger_def)
  have "\<bar>real_of_int \<lfloor>v\<rfloor>\<bar> < 2 ^ 25" using b v by simp
  then have "real_of_int \<bar>\<lfloor>v\<rfloor>\<bar> < real_of_int (2 ^ 25)" by simp
  then have "\<bar>\<lfloor>v\<rfloor>\<bar> < 2 ^ 25" by (simp only: of_int_less_iff)
  with v that show ?thesis by blast
qed

lemma squaredDistance64_small:
  assumes "smallInteger (x b)" "smallInteger (y b)" "smallInteger (x t)" "smallInteger (y t)"
  shows "squaredDistance64 b t = Finite ((x b - x t)\<^sup>2 + (y b - y t)\<^sup>2)"
proof -
  obtain i where i: "x b = of_int i" "\<bar>i\<bar> < 2 ^ 25" using assms(1) by (rule smallInteger_int)
  obtain j where j: "y b = of_int j" "\<bar>j\<bar> < 2 ^ 25" using assms(2) by (rule smallInteger_int)
  obtain k where k: "x t = of_int k" "\<bar>k\<bar> < 2 ^ 25" using assms(3) by (rule smallInteger_int)
  obtain l where l: "y t = of_int l" "\<bar>l\<bar> < 2 ^ 25" using assms(4) by (rule smallInteger_int)
  have sq: "\<bar>d\<bar> < 2 ^ 26 \<Longrightarrow> d * d < 2 ^ 52" for d :: int
  proof -
    assume "\<bar>d\<bar> < 2 ^ 26"
    then have "\<bar>d\<bar> * \<bar>d\<bar> < 2 ^ 26 * 2 ^ 26" by (intro mult_strict_mono) simp_all
    then show ?thesis by (simp add: abs_mult_self_eq)
  qed
  have t: "(2::int) ^ 26 = 2 * 2 ^ 25" by simp
  have dx: "\<bar>i - k\<bar> < 2 ^ 26" unfolding t using i(2) k(2) by linarith
  have dy: "\<bar>j - l\<bar> < 2 ^ 26" unfolding t using j(2) l(2) by linarith
  have 1: "round64 (of_int (i - k)) = Finite (of_int (i - k))"
    using dx by (intro round64_of_int) simp
  have 2: "round64 (of_int (j - l)) = Finite (of_int (j - l))"
    using dy by (intro round64_of_int) simp
  have p: "0 \<le> d * d" for d :: int by simp
  have 3: "round64 (of_int ((i - k) * (i - k))) = Finite (of_int ((i - k) * (i - k)))"
    using sq[OF dx] p[of "i - k"] by (intro round64_of_int) simp
  have 4: "round64 (of_int ((j - l) * (j - l))) = Finite (of_int ((j - l) * (j - l)))"
    using sq[OF dy] p[of "j - l"] by (intro round64_of_int) simp
  have 5: "round64 (of_int ((i - k) * (i - k) + (j - l) * (j - l)))
      = Finite (of_int ((i - k) * (i - k) + (j - l) * (j - l)))"
    using sq[OF dx] sq[OF dy] p[of "i - k"] p[of "j - l"] by (intro round64_of_int) simp
  have "squaredDistance64 b t =
      num_add (num_mul (round64 (of_int (i - k))) (round64 (of_int (i - k))))
              (num_mul (round64 (of_int (j - l))) (round64 (of_int (j - l))))"
    by (simp add: squaredDistance64_def Let_def i(1) j(1) k(1) l(1))
  also have "\<dots> = Finite (of_int ((i - k) * (i - k) + (j - l) * (j - l)))"
    unfolding 1 2 num_mul.simps of_int_mult[symmetric] 3 4 num_add.simps of_int_add[symmetric] 5 ..
  finally show ?thesis by (simp add: i(1) j(1) k(1) l(1) power2_eq_square)
qed

lemma square_small:
  assumes "smallInteger r"
  shows "round64 (r * r) = Finite (r\<^sup>2)"
proof -
  obtain i where i: "r = of_int i" "\<bar>i\<bar> < 2 ^ 25" using assms by (rule smallInteger_int)
  have "\<bar>i\<bar> * \<bar>i\<bar> < 2 ^ 25 * 2 ^ 25" using i(2) by (intro mult_strict_mono) simp_all
  then have "\<bar>i * i\<bar> < 2 ^ 53" by (simp add: abs_mult)
  then have "round64 (of_int (i * i)) = Finite (of_int (i * i))" by (rule round64_of_int)
  then show ?thesis by (simp add: i(1) power2_eq_square)
qed

subsection \<open>The remainder\<close>

lemma js_rem_nonneg: "0 < n \<Longrightarrow> 0 \<le> a \<Longrightarrow> 0 \<le> js_rem a n \<and> js_rem a n < n"
proof -
  assume n: "0 < n" and a: "0 \<le> a"
  have q: "0 \<le> a / n" using n a by simp
  have e: "n * (a / n) = a" using n by simp
  have 1: "of_int \<lfloor>a / n\<rfloor> \<le> a / n" by simp
  have 2: "a / n < of_int \<lfloor>a / n\<rfloor> + 1" by linarith
  from 1 n have "n * of_int \<lfloor>a / n\<rfloor> \<le> n * (a / n)"
    by (intro mult_left_mono) simp_all
  moreover from 2 n have "n * (a / n) < n * (of_int \<lfloor>a / n\<rfloor> + 1)"
    by (intro mult_strict_left_mono) simp_all
  ultimately show ?thesis using q e n
    by (simp add: js_rem_def js_trunc_def algebra_simps)
qed

lemma js_rem_neg: "0 < n \<Longrightarrow> a < 0 \<Longrightarrow> - n < js_rem a n \<and> js_rem a n \<le> 0"
proof -
  assume n: "0 < n" and a: "a < 0"
  have q: "\<not> 0 \<le> a / n" using n a by (simp add: divide_less_0_iff not_le)
  have e: "n * (a / n) = a" using n by simp
  have 1: "a / n \<le> of_int \<lceil>a / n\<rceil>" by simp
  have 2: "of_int \<lceil>a / n\<rceil> - 1 < a / n" by linarith
  from 1 n have "n * (a / n) \<le> n * of_int \<lceil>a / n\<rceil>"
    by (intro mult_left_mono) simp_all
  moreover from 2 n have "n * (of_int \<lceil>a / n\<rceil> - 1) < n * (a / n)"
    by (intro mult_strict_left_mono) simp_all
  ultimately show ?thesis using q e n
    by (simp add: js_rem_def js_trunc_def algebra_simps)
qed

lemma js_rem_zero: "js_rem 0 n = 0"
  by (simp add: js_rem_def js_trunc_def)

lemma js_rem_multiple: "n \<noteq> 0 \<Longrightarrow> js_rem (of_int k * n) n = 0"
  by (simp add: js_rem_def js_trunc_def)

subsection \<open>The wrap of the x axis\<close>

lemma x_wrap: "x (wrap wd ht b) = wrapX wd (x b)"
  by (simp add: wrap_def wrapX_def Let_def)

lemma wrapX_range:
  assumes "0 < wd"
  shows "0 < wrapX wd v \<and> wrapX wd v \<le> wd"
proof -
  define v1 where "v1 = (if v \<ge> wd then js_rem v wd else v)"
  have v1: "v1 < wd" using js_rem_nonneg[of wd v] assms by (auto simp: v1_def)
  have r: "wrapX wd v = (if v1 \<le> 0 then js_rem v1 wd + wd else v1)"
    by (simp add: wrapX_def v1_def Let_def)
  show ?thesis
  proof (cases "v1 < 0")
    case True
    then show ?thesis using js_rem_neg[of wd v1] assms r by auto
  next
    case False
    then show ?thesis using v1 r js_rem_zero[of wd] assms by (cases "v1 = 0") auto
  qed
qed

lemma wrapX_multiple:
  assumes "0 < wd"
  shows "wrapX wd (of_int k * wd) = wd"
proof -
  have 0: "js_rem (of_int k * wd) wd = 0" using assms by (simp add: js_rem_multiple)
  show ?thesis
  proof (cases "of_int k * wd \<ge> wd")
    case True
    then show ?thesis using 0 by (simp add: wrapX_def js_rem_zero)
  next
    case False
    then have "of_int k * wd < 1 * wd" by simp
    then have "real_of_int k < 1" using assms by (simp only: mult_less_cancel_right_pos)
    then have "k \<le> 0" by linarith
    then have "of_int k * wd \<le> 0" using assms by (simp add: mult_le_0_iff)
    then show ?thesis using False 0 by (simp add: wrapX_def)
  qed
qed

subsection \<open>The two loops\<close>

lemma phase1_frame [simp]:
  "width (phase1 rnd k bs w) = width w"
  "height (phase1 rnd k bs w) = height w"
  "boids (phase1 rnd k bs w) = boids w"
  by (induction bs arbitrary: w k) simp_all

lemma phase2_frame [simp]:
  "width (phase2 bs w) = width w"
  "height (phase2 bs w) = height w"
  "boids (phase2 bs w) = boids w"
  by (induction bs arbitrary: w) simp_all

lemma phase1_heap_notin: "r \<notin> set bs \<Longrightarrow> heap (phase1 rnd k bs w) r = heap w r"
  by (induction bs arbitrary: w k) auto

text \<open>The second loop moves an object once for each place it has in the array.\<close>

lemma phase2_heap:
  "heap (phase2 bs w) r = ((move (width w) (height w)) ^^ count_list bs r) (heap w r)"
proof (induction bs arbitrary: w)
  case Nil
  then show ?case by simp
next
  case (Cons b rest)
  then show ?case by (simp add: funpow_swap1)
qed

lemma phase2_heap_in:
  assumes "r \<in> set bs"
  shows "\<exists>b0. heap (phase2 bs w) r = move (width w) (height w) b0"
proof -
  from assms have "count_list bs r \<noteq> 0" by (simp add: count_list_0_iff)
  then obtain c where "count_list bs r = Suc c" by (cases "count_list bs r") auto
  then show ?thesis by (auto simp: phase2_heap)
qed

lemma phase2_heap_notin: "r \<notin> set bs \<Longrightarrow> heap (phase2 bs w) r = heap w r"
  by (simp add: phase2_heap count_list_0_iff)

lemma move_spec: "move wd ht b = spec_move wd ht b"
  by (simp add: move_def wrap_def integrate_def commit_def spec_move_def wrapX_def wrapY_def Let_def)

lemma phase2_fold:
  "phase2 bs w =
     fold (\<lambda>r v. v\<lparr>heap := (heap v)(r := spec_move (width w) (height w) (heap v r))\<rparr>) bs w"
proof (induction bs arbitrary: w)
  case Nil
  then show ?case by simp
next
  case (Cons b rest)
  show ?case by (simp add: Cons.IH move_spec fun_upd_def)
qed

subsection \<open>The example worlds, evaluated\<close>

lemma emptyWorld_eq:
  "emptyWorld = \<lparr>width = 10, height = 10, boids = [], heap = (\<lambda>_. undefined)\<rparr>"
  by (simp add: emptyWorld_def World_def)

lemma edgeWorld_eq:
  "edgeWorld = \<lparr>width = 10, height = 10, boids = [1],
     heap = (\<lambda>_. undefined)
       (1 := \<lparr>x = 9, y = 0, angle = 0, speed = 1, newAngle = 0, newSpeed = 0\<rparr>)\<rparr>"
  by (simp add: edgeWorld_def emptyWorld_eq addBoid_def newRef_def)

lemma stage_edge:
  "stage (\<lambda>_. 1 / 2) 0 edgeWorld 1 =
     \<lparr>x = 9, y = 0, angle = 0, speed = 1, newAngle = 0, newSpeed = 1\<rparr>"
  by (simp add: edgeWorld_eq stage_def getNeighbors_def neighborInfluence_def noise_def atan2_def)

lemma move_edge:
  "move 10 10 \<lparr>x = 9, y = 0, angle = 0, speed = 1, newAngle = 0, newSpeed = 1\<rparr> =
     \<lparr>x = 10, y = 10, angle = 0, speed = 1, newAngle = 0, newSpeed = 1\<rparr>"
  by (simp add: move_def commit_def integrate_def wrap_def js_rem_def js_trunc_def)

lemma update_edge:
  "update (\<lambda>_. 1 / 2) edgeWorld = \<lparr>width = 10, height = 10, boids = [1],
     heap = (\<lambda>_. undefined)
       (1 := \<lparr>x = 10, y = 10, angle = 0, speed = 1, newAngle = 0, newSpeed = 1\<rparr>)\<rparr>"
  using stage_edge by (simp add: update_def edgeWorld_eq move_edge)

lemma pairWorld_eq:
  "pairWorld = \<lparr>width = 10, height = 10, boids = [1, 2],
     heap = (\<lambda>_. undefined)(1 := boidAt 0 0, 2 := boidAt 3 4)\<rparr>"
  by (simp add: pairWorld_def emptyWorld_eq addBoid_def newRef_def boidAt_def eval_nat_numeral)

lemma trioWorld_eq:
  "trioWorld = \<lparr>width = 10, height = 10, boids = [1, 2, 3],
     heap = (\<lambda>_. undefined)(1 := boidAt 0 0, 2 := boidAt 3 4, 3 := boidAt 0 0)\<rparr>"
  by (simp add: trioWorld_def pairWorld_eq addBoid_def newRef_def boidAt_def eval_nat_numeral)

lemma getNeighbors_pair:
  "getNeighbors pairWorld 1 100 = [2]" "getNeighbors pairWorld 2 100 = [1]"
  by (simp_all add: pairWorld_eq getNeighbors_def boidAt_def round64_numeral)

text \<open>
  Around the first boid of the trio, with radius 5: the boid on top of it is a neighbour,
  the boid exactly 5 away is not.
\<close>

lemma getNeighbors_trio:
  "getNeighbors trioWorld 1 5 = [3]" "getNeighbors trioWorld 1 100 = [2, 3]"
  by (simp_all add: trioWorld_eq getNeighbors_def boidAt_def round64_numeral)

text \<open>
  The last correction of \<open>y\<close> takes the remainder by the width. In a world wider than
  high and less than a step high, it leaves \<open>y\<close> below zero.
\<close>

lemma wrapY_below_zero: "wrapY 100 (1 / 2) (- (3 / 4)) = - (1 / 4)"
  by (simp add: wrapY_def js_rem_def js_trunc_def ceiling_eq_iff)

lemma roundingWorld_eq:
  "roundingWorld = \<lparr>width = 10, height = 10, boids = [1, 2],
     heap = (\<lambda>_. undefined)(1 := boidAt 0 0, 2 := boidAt (1 - 1 / 2 ^ 53) (15 / 2 ^ 30))\<rparr>"
  by (simp add: roundingWorld_def emptyWorld_eq addBoid_def newRef_def boidAt_def eval_nat_numeral)

lemma sq64_rounding:
  "squaredDistance64 (heap roundingWorld 2) (heap roundingWorld 1) = Finite 1"
proof -
  have h: "heap roundingWorld 2 = boidAt (1 - 1 / 2 ^ 53) (15 / 2 ^ 30)"
    "heap roundingWorld 1 = boidAt 0 0"
    by (simp_all add: roundingWorld_eq)
  have "1 \<le> maxDouble" by (simp add: maxDouble_def)
  then have m: "\<bar>v\<bar> \<le> 1 \<Longrightarrow> \<bar>v\<bar> \<le> maxDouble" for v :: real
    by linarith
  have a: "round64 (1 - 1 / 2 ^ 53) = Finite (1 - 1 / 2 ^ 53)"
    by (rule small_round[OF rw1 m]) simp
  have b: "round64 (15 / 2 ^ 30) = Finite (15 / 2 ^ 30)"
    by (rule small_round[OF rw3 m]) simp
  have c: "round64 ((1 - 1 / 2 ^ 53) * (1 - 1 / 2 ^ 53)) = Finite (1 - 1 / 2 ^ 52)"
    unfolding round64_def rw2 using m[of "1 - 1 / 2 ^ 52"] by (simp add: abs_le_iff)
  have d: "round64 (15 / 2 ^ 30 * (15 / 2 ^ 30)) = Finite (225 / 2 ^ 60)"
    unfolding round64_def rw4 using m[of "225 / 2 ^ 60"] by (simp add: abs_le_iff)
  have e: "round64 (1 - 1 / 2 ^ 52 + 225 / 2 ^ 60) = Finite 1"
    unfolding round64_def rw5 using m[of 1] by (simp add: abs_le_iff)
  have "squaredDistance64 (heap roundingWorld 2) (heap roundingWorld 1)
      = num_add (num_mul (round64 (1 - 1 / 2 ^ 53)) (round64 (1 - 1 / 2 ^ 53)))
                (num_mul (round64 (15 / 2 ^ 30)) (round64 (15 / 2 ^ 30)))"
    unfolding h by (simp add: squaredDistance64_def boidAt_def Let_def del: power_numeral)
  also have "\<dots> = Finite 1"
    unfolding a b num_mul.simps c d num_add.simps e ..
  finally show ?thesis .
qed


lemma farWorld_eq:
  "farWorld = \<lparr>width = 10, height = 10, boids = [1, 2],
     heap = (\<lambda>_. undefined)(1 := boidAt 0 0, 2 := boidAt (2 ^ 600) 0)\<rparr>"
  by (simp add: farWorld_def emptyWorld_eq addBoid_def newRef_def boidAt_def eval_nat_numeral)

text \<open>
  With the radius \<open>2\<^sup>7\<^sup>0\<^sup>0\<close> the far boid is within the radius, but its squared distance
  and the squared radius both overflow to \<open>Infinity\<close>, and \<open>Infinity < Infinity\<close> is
  false: the boid is not returned.
\<close>

lemma getNeighbors_overflow:
  "(x (heap farWorld 2) - x (heap farWorld 1))\<^sup>2 + (y (heap farWorld 2) - y (heap farWorld 1))\<^sup>2
     < (2 ^ 700)\<^sup>2
   \<and> getNeighbors farWorld 1 (2 ^ 700) = []"
proof -
  have a: "round64 (2 ^ 600) = Finite (2 ^ 600)"
    by (simp add: round64_def maxDouble_def nearest_eval[of 600] roundEven_def)
  have b: "round64 (2 ^ 600 * 2 ^ 600) = PlusInfinity"
    by (simp add: round64_def maxDouble_def nearest_eval[of 1200] roundEven_def)
  have c: "round64 (2 ^ 700 * 2 ^ 700) = PlusInfinity"
    by (simp add: round64_def maxDouble_def nearest_eval[of 1400] roundEven_def)
  have h: "heap farWorld 2 = boidAt (2 ^ 600) 0" "heap farWorld 1 = boidAt 0 0"
    "boids farWorld = [1, 2]"
    by (simp_all add: farWorld_eq)
  have "squaredDistance64 (heap farWorld 2) (heap farWorld 1)
      = num_add (num_mul (round64 (2 ^ 600)) (round64 (2 ^ 600))) (num_mul (round64 0) (round64 0))"
    unfolding h by (simp add: squaredDistance64_def boidAt_def Let_def del: power_numeral)
  also have "\<dots> = PlusInfinity"
    unfolding a num_mul.simps b by (simp add: round64_numeral)
  finally have d: "squaredDistance64 (heap farWorld 2) (heap farWorld 1) = PlusInfinity" .
  have "num_mul (Finite (2 ^ 700)) (Finite (2 ^ 700)) = PlusInfinity"
    unfolding num_mul.simps c ..
  then have "getNeighbors farWorld 1 (2 ^ 700) = []"
    using d unfolding getNeighbors_squaredDistance64 h(3) by simp
  moreover have "(x (heap farWorld 2) - x (heap farWorld 1))\<^sup>2
      + (y (heap farWorld 2) - y (heap farWorld 1))\<^sup>2 < (2 ^ 700)\<^sup>2"
    by (simp add: farWorld_eq boidAt_def)
  ultimately show ?thesis by simp
qed


subsection \<open>The speed after an update\<close>

lemma clamp_bounds: "1 / 2 \<le> min (max v (1 / 2)) 2 \<and> min (max v (1 / 2)) 2 \<le> 2" for v :: real
  by simp

lemma newSpeed_stage: "1 / 2 \<le> newSpeed (stage rnd k w b) \<and> newSpeed (stage rnd k w b) \<le> 2"
proof -
  obtain xi yi si where
    n: "neighborInfluence (heap w b) (map (heap w) (getNeighbors w b 100)) = (xi, yi, si)"
    by (cases "neighborInfluence (heap w b) (map (heap w) (getNeighbors w b 100))") auto
  have "newSpeed (stage rnd k w b) = min (max (speed (heap w b) + (si + noise rnd (k + 2))) (1 / 2)) 2"
    by (simp add: stage_def Let_def n)
  then show ?thesis using clamp_bounds by simp
qed

lemma phase1_newSpeed:
  "r \<in> set bs \<Longrightarrow>
     1 / 2 \<le> newSpeed (heap (phase1 rnd k bs w) r) \<and> newSpeed (heap (phase1 rnd k bs w) r) \<le> 2"
proof (induction bs arbitrary: w k)
  case Nil
  then show ?case by simp
next
  case (Cons b rest)
  show ?case
  proof (cases "r \<in> set rest")
    case True
    then show ?thesis using Cons.IH by simp
  next
    case False
    with Cons.prems have "r = b" by simp
    then show ?thesis using False newSpeed_stage[of rnd k w b] by (simp add: phase1_heap_notin)
  qed
qed

lemma move_speed [simp]:
  "speed (move wd ht b) = newSpeed b" "newSpeed (move wd ht b) = newSpeed b"
  by (simp_all add: move_spec spec_move_def)

lemma funpow_move_newSpeed: "newSpeed ((move wd ht ^^ n) b) = newSpeed b"
  by (induction n) simp_all

lemma speed_bounds_after_update:
  assumes "r \<in> set (boids w)"
  shows "1 / 2 \<le> speed (heap (update rnd w) r) \<and> speed (heap (update rnd w) r) \<le> 2"
proof -
  from assms have "count_list (boids w) r \<noteq> 0" by (simp add: count_list_0_iff)
  then obtain c where c: "count_list (boids w) r = Suc c" by (cases "count_list (boids w) r") auto
  have "speed (heap (update rnd w) r) = newSpeed (heap (phase1 rnd 0 (boids w) w) r)"
    by (simp add: update_def phase2_heap c funpow_move_newSpeed)
  then show ?thesis using phase1_newSpeed[OF assms, of rnd 0 w] by simp
qed

subsection \<open>A boid without neighbours\<close>

lemma getNeighbors_single: "boids w = [b] \<Longrightarrow> getNeighbors w b r = []"
  by (simp add: getNeighbors_def)

lemma noise_bound: "0 \<le> rnd i \<Longrightarrow> rnd i < 1 \<Longrightarrow> \<bar>noise rnd i\<bar> \<le> 0.01"
  by (simp add: noise_def abs_le_iff)

lemma stage_alone:
  assumes "getNeighbors w b 100 = []"
  shows "stage rnd k w b = (heap w b)
    \<lparr>newAngle := atan2 (sin (angle (heap w b)) + noise rnd (k + 1))
                        (cos (angle (heap w b)) + noise rnd k),
     newSpeed := min (max (speed (heap w b) + noise rnd (k + 2)) 0.5) 2\<rparr>"
  by (simp add: stage_def assms neighborInfluence_def Let_def)

subsection \<open>New references\<close>



subsection \<open>The separation rule\<close>

lemma distanceSquared_nonneg: "0 \<le> distanceSquared b n"
  by (simp add: distanceSquared_def Let_def)

lemma distanceSquared_sym: "distanceSquared b n = distanceSquared n b"
  by (simp add: distanceSquared_def Let_def algebra_simps)

lemma neg_quotient: "(p - q) / d * c = - ((q - p) / d * c)" for p q d c :: real
proof -
  have "(p - q) / d = - (q - p) / d" by simp
  also have "\<dots> = - ((q - p) / d)" by (rule divide_minus_left)
  finally show ?thesis by simp
qed

lemma separationTerm_neg:
  "fst (separationTerm a b) = - fst (separationTerm b a)"
  "snd (separationTerm a b) = - snd (separationTerm b a)"
proof -
  have d: "separationDivisor a b = separationDivisor b a"
    by (simp add: separationDivisor_def distanceSquared_sym[of a b])
  show "fst (separationTerm a b) = - fst (separationTerm b a)"
    unfolding separationTerm_def Let_def fst_conv d by (rule neg_quotient)
  show "snd (separationTerm a b) = - snd (separationTerm b a)"
    unfolding separationTerm_def Let_def snd_conv d by (rule neg_quotient)
qed

lemma separation_single:
  "separation b [n] (xi, yi) = (xi + fst (separationTerm b n), yi + snd (separationTerm b n))"
  by (simp add: separation_def)

subsection \<open>Phase 1 reads committed fields only\<close>



















section \<open>The claims\<close>

text \<open>
  C1. After any number of \<open>update()\<close> calls on a world of positive width and height,
  every agent has \<open>0 \<le> x < width\<close>, \<open>0 \<le> y < height\<close> and \<open>0.5 \<le> speed \<le> 2\<close>.

  The code does not keep the position bounds. In the world of 10 by 10 with the one
  boid at \<open>(9, 0)\<close>, heading \<open>0\<close>, speed \<open>1\<close>, and every \<open>Math.random()\<close> of the
  update returning \<open>0.5\<close> (no noise), one update moves the boid to \<open>x = 10\<close>: the
  first correction takes \<open>10\<close> to \<open>0\<close> and the second, which also fires at \<open>0\<close>,
  to \<open>0 + width\<close>. Its \<open>y\<close> stays \<open>0\<close> and the same second correction takes it to
  \<open>height\<close>. So \<open>x = width\<close> and \<open>y = height\<close> after the update.
\<close>

theorem update_leaves_boid_on_far_edge:
  "boids (update (\<lambda>_. 1 / 2) edgeWorld) = [1]
   \<and> 0 < width edgeWorld \<and> 0 < height edgeWorld
   \<and> x (heap (update (\<lambda>_. 1 / 2) edgeWorld) 1) = width (update (\<lambda>_. 1 / 2) edgeWorld)
   \<and> y (heap (update (\<lambda>_. 1 / 2) edgeWorld) 1) = height (update (\<lambda>_. 1 / 2) edgeWorld)
   \<and> \<not> x (heap (update (\<lambda>_. 1 / 2) edgeWorld) 1) < width (update (\<lambda>_. 1 / 2) edgeWorld)"
  by (simp add: update_edge) (simp add: edgeWorld_eq)

text \<open>
  C2. Phase 2 of \<open>update()\<close> commits angle and speed, integrates the position and wraps
  each axis as the pseudocode of the specification does, the last correction of \<open>y\<close>
  taking the remainder by the width: the body of the second loop is \<^const>\<open>spec_move\<close>,
  and \<open>update\<close> is the first loop followed by that body on every boid of the array.
\<close>

theorem phase2_follows_pseudocode:
  "move wd ht b = spec_move wd ht b
   \<and> update rnd w = spec_phase2 (phase1 rnd 0 (boids w) w)"
  by (simp add: move_spec update_def spec_phase2_def phase2_fold)



text \<open>
  C4, as amended. \<open>getNeighbors(t, r)\<close> returns, in the order of the array, exactly the
  boids \<open>b\<close> of the array that are not \<open>t\<close> itself and whose squared distance to \<open>t\<close>
  as the code computes it in double arithmetic is less than the rounded \<open>r * r\<close>. The
  boid is compared by identity and the distance is not wrapped. Where the arithmetic is
  exact (every coordinate and \<open>r\<close> an integer below \<open>2\<^sup>2\<^sup>5\<close> in magnitude) these are the
  boids with \<open>(b.x - t.x)\<^sup>2 + (b.y - t.y)\<^sup>2 < r\<^sup>2\<close>. Another boid at the coordinates of
  \<open>t\<close> is returned exactly when the rounded \<open>r * r\<close> is above 0.
\<close>

theorem getNeighbors_as_computed:
  "set (getNeighbors w t r) =
     {b \<in> set (boids w). b \<noteq> t \<and>
        num_less (squaredDistance64 (heap w b) (heap w t)) (num_mul (Finite r) (Finite r))}
   \<and> getNeighbors w t r = filter (\<lambda>b. b \<in> set (getNeighbors w t r)) (boids w)
   \<and> (smallInteger r \<and> smallInteger (x (heap w t)) \<and> smallInteger (y (heap w t))
        \<and> (\<forall>b \<in> set (boids w). smallInteger (x (heap w b)) \<and> smallInteger (y (heap w b)))
      \<longrightarrow> set (getNeighbors w t r) =
            {b \<in> set (boids w). b \<noteq> t \<and>
               (x (heap w b) - x (heap w t))\<^sup>2 + (y (heap w b) - y (heap w t))\<^sup>2 < r\<^sup>2})
   \<and> (c \<in> set (boids w) \<and> c \<noteq> t \<and> x (heap w c) = x (heap w t) \<and> y (heap w c) = y (heap w t)
      \<longrightarrow> (c \<in> set (getNeighbors w t r)
            \<longleftrightarrow> num_less (Finite 0) (num_mul (Finite r) (Finite r))))"
proof (intro conjI impI)
  show 1: "set (getNeighbors w t r) =
     {b \<in> set (boids w). b \<noteq> t \<and>
        num_less (squaredDistance64 (heap w b) (heap w t)) (num_mul (Finite r) (Finite r))}"
    by (auto simp: getNeighbors_squaredDistance64)
  show "getNeighbors w t r = filter (\<lambda>b. b \<in> set (getNeighbors w t r)) (boids w)"
    unfolding getNeighbors_def by (rule filter_cong[OF refl]) simp
  show "set (getNeighbors w t r) =
            {b \<in> set (boids w). b \<noteq> t \<and>
               (x (heap w b) - x (heap w t))\<^sup>2 + (y (heap w b) - y (heap w t))\<^sup>2 < r\<^sup>2}"
    if a: "smallInteger r \<and> smallInteger (x (heap w t)) \<and> smallInteger (y (heap w t))
        \<and> (\<forall>b \<in> set (boids w). smallInteger (x (heap w b)) \<and> smallInteger (y (heap w b)))"
  proof -
    have "num_less (squaredDistance64 (heap w b) (heap w t)) (num_mul (Finite r) (Finite r))
        \<longleftrightarrow> (x (heap w b) - x (heap w t))\<^sup>2 + (y (heap w b) - y (heap w t))\<^sup>2 < r\<^sup>2"
      if "b \<in> set (boids w)" for b
      using a that by (simp add: squaredDistance64_small square_small)
    then show ?thesis unfolding 1 by blast
  qed
  show "c \<in> set (getNeighbors w t r) \<longleftrightarrow> num_less (Finite 0) (num_mul (Finite r) (Finite r))"
    if a: "c \<in> set (boids w) \<and> c \<noteq> t \<and> x (heap w c) = x (heap w t) \<and> y (heap w c) = y (heap w t)"
  proof -
    have "squaredDistance64 (heap w c) (heap w t) = Finite 0"
      using a by (simp add: squaredDistance64_def round64_numeral)
    then show ?thesis using a by (simp add: 1)
  qed
qed

theorem getNeighbors_as_computed_witness:
  "smallInteger 5
   \<and> smallInteger (x (heap trioWorld 1)) \<and> smallInteger (y (heap trioWorld 1))
   \<and> smallInteger (x (heap trioWorld 2)) \<and> smallInteger (y (heap trioWorld 2))
   \<and> smallInteger (x (heap trioWorld 3)) \<and> smallInteger (y (heap trioWorld 3))
   \<and> boids trioWorld = [1, 2, 3]
   \<and> set (getNeighbors trioWorld 1 5) =
        {b \<in> set (boids trioWorld). b \<noteq> 1 \<and>
           (x (heap trioWorld b) - x (heap trioWorld 1))\<^sup>2
             + (y (heap trioWorld b) - y (heap trioWorld 1))\<^sup>2 < 5\<^sup>2}
   \<and> getNeighbors trioWorld 1 5 = [3]
   \<and> 3 \<in> set (boids trioWorld) \<and> (3 :: ref) \<noteq> 1
   \<and> x (heap trioWorld 3) = x (heap trioWorld 1) \<and> y (heap trioWorld 3) = y (heap trioWorld 1)
   \<and> num_less (Finite 0) (num_mul (Finite 5) (Finite 5))
   \<and> 3 \<in> set (getNeighbors trioWorld 1 5)"
proof -
  have s: "smallInteger 5
      \<and> smallInteger (x (heap trioWorld 1)) \<and> smallInteger (y (heap trioWorld 1))
      \<and> smallInteger (x (heap trioWorld 2)) \<and> smallInteger (y (heap trioWorld 2))
      \<and> smallInteger (x (heap trioWorld 3)) \<and> smallInteger (y (heap trioWorld 3))"
    by (simp add: trioWorld_eq boidAt_def smallInteger_def)
  have b: "boids trioWorld = [1, 2, 3]" by (simp add: trioWorld_eq)
  have h: "smallInteger 5 \<and> smallInteger (x (heap trioWorld 1)) \<and> smallInteger (y (heap trioWorld 1))
      \<and> (\<forall>b \<in> set (boids trioWorld).
            smallInteger (x (heap trioWorld b)) \<and> smallInteger (y (heap trioWorld b)))"
    using s by (simp add: b)
  have c: "3 \<in> set (boids trioWorld) \<and> (3 :: ref) \<noteq> 1
      \<and> x (heap trioWorld 3) = x (heap trioWorld 1) \<and> y (heap trioWorld 3) = y (heap trioWorld 1)"
    by (simp add: trioWorld_eq boidAt_def)
  note t = getNeighbors_as_computed [of trioWorld 1 5 3]
  from t h have e: "set (getNeighbors trioWorld 1 5) =
        {b \<in> set (boids trioWorld). b \<noteq> 1 \<and>
           (x (heap trioWorld b) - x (heap trioWorld 1))\<^sup>2
             + (y (heap trioWorld b) - y (heap trioWorld 1))\<^sup>2 < 5\<^sup>2}"
    by blast
  from t c have i: "3 \<in> set (getNeighbors trioWorld 1 5)
      \<longleftrightarrow> num_less (Finite 0) (num_mul (Finite 5) (Finite 5))"
    by blast
  have p: "num_less (Finite 0) (num_mul (Finite 5) (Finite 5))" by (simp add: round64_numeral)
  show ?thesis using s b c e i p getNeighbors_trio(1) by blast
qed

text \<open>
  The claim C4 as it was stated, with the exact \<open>(b.x - t.x)\<^sup>2 + (b.y - t.y)\<^sup>2 < r\<^sup>2\<close>,
  fails: around the boid at \<open>(0, 0)\<close> with radius 1, the boid at
  \<open>(1 - 2\<^sup>-\<^sup>5\<^sup>3, 15 / 2\<^sup>3\<^sup>0)\<close> is less than 1 away and is not returned, since its computed
  squared distance rounds to exactly 1.
\<close>

theorem getNeighbors_rounding_counterexample:
  "2 \<in> set (boids roundingWorld) \<and> (2 :: ref) \<noteq> 1
   \<and> (x (heap roundingWorld 2) - x (heap roundingWorld 1))\<^sup>2
       + (y (heap roundingWorld 2) - y (heap roundingWorld 1))\<^sup>2 < 1\<^sup>2
   \<and> 2 \<notin> set (getNeighbors roundingWorld 1 1)"
proof -
  have e: "(x (heap roundingWorld 2) - x (heap roundingWorld 1))\<^sup>2
       + (y (heap roundingWorld 2) - y (heap roundingWorld 1))\<^sup>2 < 1\<^sup>2"
    by (simp add: roundingWorld_eq boidAt_def power2_eq_square)
  have b: "boids roundingWorld = [1, 2]" by (simp add: roundingWorld_eq)
  have "getNeighbors roundingWorld 1 1 = []"
    using sq64_rounding by (simp add: getNeighbors_squaredDistance64 b round64_numeral)
  then show ?thesis using e by (simp add: roundingWorld_eq)
qed

text \<open>
  C5. For a boid with no neighbour within 100, in particular the only boid of the world,
  Phase 1 stages \<open>newAngle = atan2(sin(angle) + ey, cos(angle) + ex)\<close> and
  \<open>newSpeed = clamp(speed + es, 0.5, 2)\<close>, where \<open>ex\<close>, \<open>ey\<close>, \<open>es\<close> are
  \<open>(r * 2 - 1) * 0.01\<close> for the three successive draws \<open>r\<close> of the boid, in this
  order; with draws from \<open>[0, 1)\<close> each is of magnitude at most 0.01.
\<close>

theorem lone_boid_staging:
  assumes "getNeighbors w b 100 = [] \<or> boids w = [b]"
    and "\<forall>i \<in> {k, k + 1, k + 2}. 0 \<le> rnd i \<and> rnd i < 1"
  shows "newAngle (stage rnd k w b) =
           atan2 (sin (angle (heap w b)) + (rnd (k + 1) * 2 - 1) * 0.01)
                 (cos (angle (heap w b)) + (rnd k * 2 - 1) * 0.01)
       \<and> newSpeed (stage rnd k w b) = clamp (speed (heap w b) + (rnd (k + 2) * 2 - 1) * 0.01) 0.5 2
       \<and> \<bar>(rnd k * 2 - 1) * 0.01\<bar> \<le> 0.01
       \<and> \<bar>(rnd (k + 1) * 2 - 1) * 0.01\<bar> \<le> 0.01
       \<and> \<bar>(rnd (k + 2) * 2 - 1) * 0.01\<bar> \<le> 0.01"
proof -
  from assms(1) have n: "getNeighbors w b 100 = []" by (auto simp: getNeighbors_single)
  have "newAngle (stage rnd k w b) =
      atan2 (sin (angle (heap w b)) + noise rnd (k + 1)) (cos (angle (heap w b)) + noise rnd k)"
    by (simp add: stage_alone[OF n])
  then have a: "newAngle (stage rnd k w b) =
      atan2 (sin (angle (heap w b)) + (rnd (k + 1) * 2 - 1) * 0.01)
            (cos (angle (heap w b)) + (rnd k * 2 - 1) * 0.01)"
    by (simp only: noise_def)
  have "newSpeed (stage rnd k w b) = clamp (speed (heap w b) + noise rnd (k + 2)) 0.5 2"
    by (simp add: stage_alone[OF n] clamp_def min_def max_def)
  then have s: "newSpeed (stage rnd k w b) =
      clamp (speed (heap w b) + (rnd (k + 2) * 2 - 1) * 0.01) 0.5 2"
    by (simp only: noise_def)
  have e: "\<bar>(rnd i * 2 - 1) * 0.01\<bar> \<le> 0.01" if "i \<in> {k, k + 1, k + 2}" for i
  proof -
    have "0 \<le> rnd i" "rnd i < 1" using assms(2) that by blast+
    then have "\<bar>noise rnd i\<bar> \<le> 0.01" by (rule noise_bound)
    then show ?thesis by (simp only: noise_def)
  qed
  show ?thesis using a s e[of k] e[of "k + 1"] e[of "k + 2"] by blast
qed

theorem lone_boid_staging_witness:
  "(getNeighbors edgeWorld 1 100 = [] \<or> boids edgeWorld = [1])
   \<and> 0 \<le> sampleDraws 0 \<and> sampleDraws 0 < 1
   \<and> 0 \<le> sampleDraws (0 + 1) \<and> sampleDraws (0 + 1) < 1
   \<and> 0 \<le> sampleDraws (0 + 2) \<and> sampleDraws (0 + 2) < 1
   \<and> newAngle (stage sampleDraws 0 edgeWorld 1) =
       atan2 (sin (angle (heap edgeWorld 1)) + (sampleDraws (0 + 1) * 2 - 1) * 0.01)
             (cos (angle (heap edgeWorld 1)) + (sampleDraws 0 * 2 - 1) * 0.01)
   \<and> newAngle (stage sampleDraws 0 edgeWorld 1) = arctan (1 / 198)
   \<and> newSpeed (stage sampleDraws 0 edgeWorld 1) = 199 / 200
   \<and> \<bar>(sampleDraws 0 * 2 - 1) * 0.01\<bar> = 0.01"
proof -
  have a: "getNeighbors edgeWorld 1 100 = [] \<or> boids edgeWorld = [1]" by (simp add: edgeWorld_eq)
  have d: "\<forall>i \<in> {0, 0 + 1, 0 + 2}. 0 \<le> sampleDraws i \<and> sampleDraws i < 1"
    by (simp add: sampleDraws_def)
  note t = lone_boid_staging [OF a d]
  have s: "clamp (speed (heap edgeWorld 1) + (sampleDraws (0 + 2) * 2 - 1) * 0.01) 0.5 2 = 199 / 200"
    by (simp add: edgeWorld_eq sampleDraws_def clamp_def)
  have g: "atan2 (sin (angle (heap edgeWorld 1)) + (sampleDraws (0 + 1) * 2 - 1) * 0.01)
             (cos (angle (heap edgeWorld 1)) + (sampleDraws 0 * 2 - 1) * 0.01) = arctan (1 / 198)"
    by (simp add: edgeWorld_eq sampleDraws_def atan2_def)
  have m: "\<bar>(sampleDraws 0 * 2 - 1) * 0.01\<bar> = 0.01" by (simp add: sampleDraws_def)
  have r: "0 \<le> sampleDraws 0 \<and> sampleDraws 0 < 1
      \<and> 0 \<le> sampleDraws (0 + 1) \<and> sampleDraws (0 + 1) < 1
      \<and> 0 \<le> sampleDraws (0 + 2) \<and> sampleDraws (0 + 2) < 1"
    by (simp add: sampleDraws_def)
  show ?thesis using a r t s g m by simp
qed




text \<open>
  C7. The divisor \<open>distanceSquared / 100 + 1\<close> of the separation rule is at least 1 for
  every pair of boids, and exactly 1 for two boids at the same coordinates: the rule never
  divides by zero.
\<close>

theorem separation_divisor_ge_1:
  "1 \<le> separationDivisor b n \<and> separationDivisor b n \<noteq> 0
   \<and> (x b = x n \<and> y b = y n \<longrightarrow> separationDivisor b n = 1)"
  using distanceSquared_nonneg[of b n]
  by (auto simp: separationDivisor_def distanceSquared_def)

theorem separation_divisor_ge_1_witness:
  "x (heap trioWorld 1) = x (heap trioWorld 3) \<and> y (heap trioWorld 1) = y (heap trioWorld 3)
   \<and> separationDivisor (heap trioWorld 1) (heap trioWorld 3) = 1
   \<and> 1 \<le> separationDivisor (heap trioWorld 1) (heap trioWorld 2)"
proof -
  have c: "x (heap trioWorld 1) = x (heap trioWorld 3) \<and> y (heap trioWorld 1) = y (heap trioWorld 3)"
    by (simp add: trioWorld_eq boidAt_def)
  from c separation_divisor_ge_1 [of "heap trioWorld 1" "heap trioWorld 3"]
  have a: "separationDivisor (heap trioWorld 1) (heap trioWorld 3) = 1" by blast
  from separation_divisor_ge_1 [of "heap trioWorld 1" "heap trioWorld 2"]
  have b: "1 \<le> separationDivisor (heap trioWorld 1) (heap trioWorld 2)" by blast
  show ?thesis using c a b by simp
qed

text \<open>
  C8. For two boids that are each other's only neighbours within 100, what the separation
  loop adds to \<open>xInfluence\<close> and to \<open>yInfluence\<close> of the one, whatever they held
  before, is the negative of what it adds for the other: equal in magnitude, opposite in
  sign. The loop reads the positions only, which Phase 1 leaves as they were before the
  tick.
\<close>

theorem separation_symmetric:
  assumes "getNeighbors w a 100 = [b]" and "getNeighbors w b 100 = [a]"
  shows "fst (separation (heap w a) (map (heap w) (getNeighbors w a 100)) (xa, ya)) - xa
           = - (fst (separation (heap w b) (map (heap w) (getNeighbors w b 100)) (xb, yb)) - xb)
       \<and> snd (separation (heap w a) (map (heap w) (getNeighbors w a 100)) (xa, ya)) - ya
           = - (snd (separation (heap w b) (map (heap w) (getNeighbors w b 100)) (xb, yb)) - yb)
       \<and> \<bar>fst (separation (heap w a) (map (heap w) (getNeighbors w a 100)) (xa, ya)) - xa\<bar>
           = \<bar>fst (separation (heap w b) (map (heap w) (getNeighbors w b 100)) (xb, yb)) - xb\<bar>
       \<and> \<bar>snd (separation (heap w a) (map (heap w) (getNeighbors w a 100)) (xa, ya)) - ya\<bar>
           = \<bar>snd (separation (heap w b) (map (heap w) (getNeighbors w b 100)) (xb, yb)) - yb\<bar>"
  using separationTerm_neg[of "heap w a" "heap w b"]
  by (simp add: assms separation_single)

theorem separation_symmetric_witness:
  "getNeighbors pairWorld 1 100 = [2] \<and> getNeighbors pairWorld 2 100 = [1]
   \<and> fst (separation (heap pairWorld 1) (map (heap pairWorld) (getNeighbors pairWorld 1 100)) (0, 0)) - 0
       = - (fst (separation (heap pairWorld 2) (map (heap pairWorld) (getNeighbors pairWorld 2 100)) (0, 0)) - 0)
   \<and> fst (separation (heap pairWorld 2) (map (heap pairWorld) (getNeighbors pairWorld 2 100)) (0, 0)) = 3 / 125"
proof -
  note n = getNeighbors_pair
  from separation_symmetric [OF n, of 0 0 0 0]
  have a: "fst (separation (heap pairWorld 1) (map (heap pairWorld) (getNeighbors pairWorld 1 100)) (0, 0)) - 0
       = - (fst (separation (heap pairWorld 2) (map (heap pairWorld) (getNeighbors pairWorld 2 100)) (0, 0)) - 0)"
    by blast
  have v: "fst (separation (heap pairWorld 2) (map (heap pairWorld) (getNeighbors pairWorld 2 100)) (0, 0)) = 3 / 125"
    by (simp add: n separation_single separationTerm_def separationDivisor_def distanceSquared_def)
       (simp add: pairWorld_eq boidAt_def)
  show ?thesis using n a v by simp
qed

text \<open>
  C9. On a world with no boid \<open>update()\<close> changes nothing. On every world it leaves the
  array of boids (no boid added, removed or moved to another place), the width and the
  height as they were, and touches no object outside the array.
\<close>

theorem update_frame:
  "(boids w = [] \<longrightarrow> update rnd w = w)
   \<and> boids (update rnd w) = boids w
   \<and> width (update rnd w) = width w
   \<and> height (update rnd w) = height w
   \<and> (\<forall>r. r \<notin> set (boids w) \<longrightarrow> heap (update rnd w) r = heap w r)"
  by (simp add: update_def phase2_heap_notin phase1_heap_notin)

theorem update_frame_witness:
  "boids emptyWorld = [] \<and> update (\<lambda>_. 1 / 2) emptyWorld = emptyWorld
   \<and> 0 \<notin> set (boids edgeWorld)
   \<and> heap (update (\<lambda>_. 1 / 2) edgeWorld) 0 = heap edgeWorld 0"
proof -
  have e: "boids emptyWorld = []" by (simp add: emptyWorld_eq)
  have n: "0 \<notin> set (boids edgeWorld)" by (simp add: edgeWorld_eq)
  from e update_frame [of emptyWorld "\<lambda>_. 1 / 2"]
  have a: "update (\<lambda>_. 1 / 2) emptyWorld = emptyWorld" by blast
  from n update_frame [of edgeWorld "\<lambda>_. 1 / 2"]
  have b: "heap (update (\<lambda>_. 1 / 2) edgeWorld) 0 = heap edgeWorld 0" by blast
  show ?thesis using e n a b by simp
qed

text \<open>
  C10. For a positive width, the wrap of \<open>update()\<close> leaves every boid of the array with
  \<open>0 < x \<le> width\<close>: an \<open>x\<close> of exactly \<open>0\<close> is never produced, and an \<open>x\<close> that is an
  exact multiple of the width before the wrap is exactly the width after it.
\<close>

theorem x_wrap_range:
  assumes "0 < width w"
  shows "(\<forall>r \<in> set (boids w).
            0 < x (heap (update rnd w) r) \<and> x (heap (update rnd w) r) \<le> width w)
       \<and> (\<forall>b k. x b = of_int k * width w \<longrightarrow> x (wrap (width w) (height w) b) = width w)"
proof (intro conjI ballI allI impI)
  fix r assume "r \<in> set (boids w)"
  then obtain b0 where "heap (update rnd w) r = move (width w) (height w) b0"
    using phase2_heap_in[of r "boids w" "phase1 rnd 0 (boids w) w"] by (auto simp: update_def)
  then have "x (heap (update rnd w) r) = wrapX (width w) (x (integrate (commit b0)))"
    by (simp add: move_def x_wrap)
  then show "0 < x (heap (update rnd w) r)" "x (heap (update rnd w) r) \<le> width w"
    using wrapX_range[OF assms] by simp_all
next
  fix b :: boid and k :: int
  assume "x b = of_int k * width w"
  then show "x (wrap (width w) (height w) b) = width w"
    using wrapX_multiple[OF assms, of k] by (simp add: x_wrap)
qed

theorem x_wrap_range_witness:
  "0 < width edgeWorld \<and> 1 \<in> set (boids edgeWorld)
   \<and> 0 < x (heap (update (\<lambda>_. 1 / 2) edgeWorld) 1)
   \<and> x (heap (update (\<lambda>_. 1 / 2) edgeWorld) 1) \<le> width edgeWorld
   \<and> x ((heap edgeWorld 1)\<lparr>x := 0\<rparr>) = of_int 0 * width edgeWorld
   \<and> x (wrap (width edgeWorld) (height edgeWorld) ((heap edgeWorld 1)\<lparr>x := 0\<rparr>)) = width edgeWorld"
proof -
  have h: "0 < width edgeWorld" by (simp add: edgeWorld_eq)
  have m: "1 \<in> set (boids edgeWorld)" by (simp add: edgeWorld_eq)
  note t = x_wrap_range [OF h, of "\<lambda>_. 1 / 2"]
  from t m have a: "0 < x (heap (update (\<lambda>_. 1 / 2) edgeWorld) 1)
      \<and> x (heap (update (\<lambda>_. 1 / 2) edgeWorld) 1) \<le> width edgeWorld"
    by blast
  have z: "x ((heap edgeWorld 1)\<lparr>x := 0\<rparr>) = of_int 0 * width edgeWorld" by simp
  from t z have b: "x (wrap (width edgeWorld) (height edgeWorld) ((heap edgeWorld 1)\<lparr>x := 0\<rparr>))
      = width edgeWorld"
    by blast
  show ?thesis using h m a b z by simp
qed

end
